theory Spec2Isabelle
  imports Main
begin

section \<open>Text, as the Python string operations of the three scripts use it\<close>

text \<open>
  Page text and file names are Python \<open>str\<close> values. They are modelled as \<open>string\<close>
  (a list of 8-bit characters, one per code point below 256). In that range the regex
  class \<open>\d\<close> is exactly the ten ASCII digits, and \<open>\s\<close>, like \<open>str.strip()\<close>, is
  the set of code points for which CPython's \<open>Py_UNICODE_ISSPACE\<close> holds.
\<close>

definition is_digit :: "char \<Rightarrow> bool" where
  "is_digit c = (c \<in> set ''0123456789'')"

definition is_space :: "char \<Rightarrow> bool" where
  "is_space c = (c \<in> set [CHR 0x09, CHR 0x0A, CHR 0x0B, CHR 0x0C, CHR 0x0D,
                            CHR 0x1C, CHR 0x1D, CHR 0x1E, CHR 0x1F, CHR '' '',
                            CHR 0x85, CHR 0xA0])"

abbreviation NL :: char where
  "NL \<equiv> CHR 0x0A"

text \<open>\<open>s.strip()\<close>: whitespace removed at both ends.\<close>

definition py_strip :: "string \<Rightarrow> string" where
  "py_strip s = rev (dropWhile is_space (rev (dropWhile is_space s)))"

text \<open>\<open>s.split(sep)\<close> for a one-character separator: always at least one piece.\<close>

fun py_split :: "char \<Rightarrow> string \<Rightarrow> string list" where
  "py_split sep [] = [[]]"
| "py_split sep (c # cs) =
     (if c = sep then [] # py_split sep cs
      else (case py_split sep cs of
              [] \<Rightarrow> [[c]]
            | w # ws \<Rightarrow> (c # w) # ws))"

text \<open>\<open>sep.join(parts)\<close> for a one-character separator.\<close>

fun py_join :: "char \<Rightarrow> string list \<Rightarrow> string" where
  "py_join sep [] = []"
| "py_join sep [w] = w"
| "py_join sep (w # v # ws) = w @ sep # py_join sep (v # ws)"

text \<open>\<open>sub in s\<close>: \<open>sub\<close> occurs in \<open>s\<close> as a contiguous substring.\<close>

fun starts_with :: "string \<Rightarrow> string \<Rightarrow> bool" where
  "starts_with [] s = True"
| "starts_with (a # as) [] = False"
| "starts_with (a # as) (c # cs) = (a = c \<and> starts_with as cs)"

fun py_in :: "string \<Rightarrow> string \<Rightarrow> bool" where
  "py_in sub [] = (sub = [])"
| "py_in sub (c # cs) = (starts_with sub (c # cs) \<or> py_in sub cs)"

text \<open>
  \<open>s.replace(old, '')\<close> with a non-empty \<open>old\<close>: every occurrence is deleted, scanning
  from the left without overlap.
\<close>

function py_replace_del :: "string \<Rightarrow> string \<Rightarrow> string" where
  "py_replace_del old s =
     (if old = [] \<or> s = [] then s
      else if starts_with old s then py_replace_del old (drop (length old) s)
      else hd s # py_replace_del old (tl s))"
  by pat_completeness auto
termination
  by (relation "measure (\<lambda>(old, s). length s)") auto

declare py_replace_del.simps [simp del]

text \<open>\<open>os.path.basename(p)\<close> on POSIX: what follows the last slash.\<close>

definition basename :: "string \<Rightarrow> string" where
  "basename p = rev (takeWhile (\<lambda>c. c \<noteq> CHR ''/'') (rev p))"

section \<open>The backtracking matcher behind \<open>re.findall\<close> and \<open>re.sub\<close>\<close>

text \<open>
  Only the constructs that occur in the patterns of \<open>extract.py\<close> are modelled: single
  character classes, concatenation, greedy and lazy counted repetition, capture groups
  and the multi-line end anchor. None of the patterns contains a letter, so
  \<open>re.IGNORECASE\<close> changes nothing.
\<close>

datatype atom =
    Dot               \<comment> \<open>\<open>.\<close> without DOTALL: anything but a newline\<close>
  | Space             \<comment> \<open>\<open>\s\<close>\<close>
  | NonSpace          \<comment> \<open>\<open>\S\<close>\<close>
  | Digit             \<comment> \<open>\<open>\d\<close>\<close>
  | Lit char          \<comment> \<open>an escaped or plain literal\<close>
  | DigitCommaDot     \<comment> \<open>the set \<open>[\d,\.]\<close>\<close>

datatype regex =
    Atom atom
  | Seq regex regex
  | Rep nat "nat option" bool regex   \<comment> \<open>\<open>r{lo,hi}\<close>: lower bound, upper bound, greedy?\<close>
  | Group nat regex
  | Eol                               \<comment> \<open>\<open>$\<close> under \<open>re.MULTILINE\<close>\<close>

fun atom_ok :: "atom \<Rightarrow> char \<Rightarrow> bool" where
  "atom_ok Dot c = (c \<noteq> NL)"
| "atom_ok Space c = is_space c"
| "atom_ok NonSpace c = (\<not> is_space c)"
| "atom_ok Digit c = is_digit c"
| "atom_ok (Lit a) c = (c = a)"
| "atom_ok DigitCommaDot c = (is_digit c \<or> c = CHR '','' \<or> c = CHR ''.'')"

text \<open>
  A matcher state is the text still to be read together with the groups captured so
  far. None of the patterns looks behind the current position, so the text already
  read is not kept.
\<close>

record mstate =
  rest :: string
  caps :: "nat \<Rightarrow> string option"

text \<open>
  Every matcher returns the states it can end in, in the order in which the
  backtracking engine tries them: the head of the list is the match the engine reports.
  A greedy repetition tries one more round before it tries to stop; a lazy one tries to
  stop first. The third argument bounds the rounds still allowed.
\<close>

fun rep_greedy :: "(mstate \<Rightarrow> mstate list) \<Rightarrow> nat \<Rightarrow> nat \<Rightarrow> mstate \<Rightarrow> mstate list" where
  "rep_greedy f lo 0 st = (if lo = 0 then [st] else [])"
| "rep_greedy f lo (Suc k) st =
     concat (map (\<lambda>st'. rep_greedy f (lo - 1) k st') (f st)) @ (if lo = 0 then [st] else [])"

fun rep_lazy :: "(mstate \<Rightarrow> mstate list) \<Rightarrow> nat \<Rightarrow> nat \<Rightarrow> mstate \<Rightarrow> mstate list" where
  "rep_lazy f lo 0 st = (if lo = 0 then [st] else [])"
| "rep_lazy f lo (Suc k) st =
     (if lo = 0 then [st] else []) @ concat (map (\<lambda>st'. rep_lazy f (lo - 1) k st') (f st))"

text \<open>
  An unbounded repetition is given as many rounds as there are characters left: every
  body repeated without bound in this program (\<open>.\<close>, \<open>\s\<close>, \<open>\S\<close>, \<open>,\d{3}\<close>) reads at
  least one character per round.
\<close>

primrec rmatch :: "regex \<Rightarrow> mstate \<Rightarrow> mstate list" where
  "rmatch (Atom a) st =
     (case rest st of
        [] \<Rightarrow> []
      | c # cs \<Rightarrow> if atom_ok a c then [st\<lparr>rest := cs\<rparr>] else [])"
| "rmatch (Seq r1 r2) st = concat (map (rmatch r2) (rmatch r1 st))"
| "rmatch (Rep lo hi greedy r) st =
     (let k = (case hi of Some h \<Rightarrow> h | None \<Rightarrow> length (rest st))
      in if greedy then rep_greedy (rmatch r) lo k st else rep_lazy (rmatch r) lo k st)"
| "rmatch (Group n r) st =
     map (\<lambda>st'. st'\<lparr>caps := (caps st')(n \<mapsto> take (length (rest st) - length (rest st')) (rest st))\<rparr>)
         (rmatch r st)"
| "rmatch Eol st = (case rest st of [] \<Rightarrow> [st] | c # cs \<Rightarrow> if c = NL then [st] else [])"

definition start_state :: "string \<Rightarrow> mstate" where
  "start_state s = \<lparr>rest = s, caps = (\<lambda>n. None)\<rparr>"

text \<open>\<open>m.group(n)\<close> as \<open>findall\<close> reports it: the empty string for a group that took no part.\<close>

definition group_text :: "mstate \<Rightarrow> nat \<Rightarrow> string" where
  "group_text st n = (case caps st n of None \<Rightarrow> [] | Some w \<Rightarrow> w)"

text \<open>
  \<open>pattern.findall(s)\<close> for a pattern with two groups: the scan tries each start position
  from the left; after a match it goes on where the match ended. The patterns of this
  program never match the empty string; the branch for an empty match only steps on by
  one character.
\<close>

function findall :: "regex \<Rightarrow> string \<Rightarrow> (string \<times> string) list" where
  "findall r s =
     (case rmatch r (start_state s) of
        [] \<Rightarrow> (case s of [] \<Rightarrow> [] | c # cs \<Rightarrow> findall r cs)
      | m # ms \<Rightarrow>
          (group_text m 1, group_text m 2) #
          (if length (rest m) < length s then findall r (rest m)
           else (case s of [] \<Rightarrow> [] | c # cs \<Rightarrow> findall r cs)))"
  by pat_completeness auto
termination
  by (relation "measure (\<lambda>(r, s). length s)") auto

declare findall.simps [simp del]

text \<open>\<open>re.sub(pattern, '', s)\<close>: every match found by the same scan is deleted.\<close>

function re_sub_del :: "regex \<Rightarrow> string \<Rightarrow> string" where
  "re_sub_del r s =
     (case rmatch r (start_state s) of
        [] \<Rightarrow> (case s of [] \<Rightarrow> [] | c # cs \<Rightarrow> c # re_sub_del r cs)
      | m # ms \<Rightarrow>
          (if length (rest m) < length s then re_sub_del r (rest m)
           else (case s of [] \<Rightarrow> [] | c # cs \<Rightarrow> c # re_sub_del r cs)))"
  by pat_completeness auto
termination
  by (relation "measure (\<lambda>(r, s). length s)") auto

declare re_sub_del.simps [simp del]

section \<open>Strategy B of \<open>extract.py\<close>: the regex fallback\<close>

text \<open>The price part \<open>\d{1,3}(?:,\d{3})*\.\d{2}\<close> of \<open>PRICE_REGEX\<close> (its group 2).\<close>

definition PRICE_BODY :: regex where
  "PRICE_BODY =
     Seq (Rep 1 (Some 3) True (Atom Digit))
       (Seq (Rep 0 None True (Seq (Atom (Lit CHR '','')) (Rep 3 (Some 3) True (Atom Digit))))
         (Seq (Atom (Lit CHR ''.'')) (Rep 2 (Some 2) True (Atom Digit))))"

text \<open>
  \<open>PRICE_REGEX = (.{10,}?)\s+(?:\S+\s+){0,5}\$(\d{1,3}(?:,\d{3})*\.\d{2})\s*$\<close>,
  compiled with \<open>re.MULTILINE | re.IGNORECASE\<close>.
\<close>

definition PRICE_REGEX :: regex where
  "PRICE_REGEX =
     Seq (Group 1 (Rep 10 None False (Atom Dot)))
       (Seq (Rep 1 None True (Atom Space))
         (Seq (Rep 0 (Some 5) True
                 (Seq (Rep 1 None True (Atom NonSpace)) (Rep 1 None True (Atom Space))))
           (Seq (Atom (Lit CHR ''$''))
             (Seq (Group 2 PRICE_BODY)
               (Seq (Rep 0 None True (Atom Space)) Eol)))))"

text \<open>The clean-up pattern \<open>(\s+[\d,\.]{1,10}\s*)$\<close> of line 57, with \<open>re.MULTILINE\<close>.\<close>

definition TRAILING_NUMBER :: regex where
  "TRAILING_NUMBER =
     Seq (Group 1 (Seq (Rep 1 None True (Atom Space))
                    (Seq (Rep 1 (Some 10) True (Atom DigitCommaDot))
                      (Rep 0 None True (Atom Space)))))
       Eol"

record line_item =
  Description :: string
  Total_Price :: string

text \<open>The body of the loop over the matches (lines 55 to 67): one match, zero or one record.\<close>

definition match_to_items :: "string \<times> string \<Rightarrow> line_item list" where
  "match_to_items m =
     (let description = py_strip (re_sub_del TRAILING_NUMBER (fst m));
          total_price = CHR ''$'' # snd m
      in if length description > 5
         then [\<lparr>Description = description, Total_Price = total_price\<rparr>]
         else [])"

definition cleaned_text :: "string \<Rightarrow> string" where
  "cleaned_text page_text =
     py_join NL (map py_strip (filter (\<lambda>line. py_strip line \<noteq> []) (py_split NL page_text)))"

text \<open>\<open>extract_with_regex\<close>: \<open>None\<close> when nothing matched or nothing was kept.\<close>

definition extract_with_regex :: "string \<Rightarrow> line_item list option" where
  "extract_with_regex page_text =
     (let matches = findall PRICE_REGEX (cleaned_text page_text)
      in if matches = [] then None
         else (let data = concat (map match_to_items matches)
               in if data \<noteq> [] then Some data else None))"

section \<open>Strategy A of \<open>extract.py\<close>: the structural table\<close>

text \<open>
  \<open>extract_table\<close> returns \<open>None\<close> or a list of rows, each row a list of cells, each cell
  a string or \<open>None\<close>. \<open>pd.DataFrame(table_data)\<close> has as many columns as the longest
  row, and a row that is shorter reads as \<open>None\<close> beyond its end.
\<close>

type_synonym cell = "string option"
type_synonym table = "cell list list"

definition shape1 :: "table \<Rightarrow> nat" where
  "shape1 t = foldr max (map length t) 0"

definition col_cell :: "cell list \<Rightarrow> nat \<Rightarrow> cell" where
  "col_cell row i = (if i < length row then row ! i else None)"

text \<open>\<open>.astype(str)\<close> on a cell: the null cell becomes the four letters \<open>None\<close>.\<close>

definition astype_str :: "cell \<Rightarrow> string" where
  "astype_str c = (case c of None \<Rightarrow> ''None'' | Some s \<Rightarrow> s)"

text \<open>\<open>.str.contains(r'(\d|\$)', na=False)\<close>: a digit or a dollar sign occurs somewhere.\<close>

definition currency_like :: "string \<Rightarrow> bool" where
  "currency_like s = list_ex (\<lambda>c. is_digit c \<or> c = CHR ''$'') s"

text \<open>\<open>df.iloc[1:]\<close>: the rows without the header row.\<close>

definition data_rows :: "table \<Rightarrow> table" where
  "data_rows t = tl t"

definition currency_count :: "table \<Rightarrow> nat \<Rightarrow> nat" where
  "currency_count df i = length (filter (\<lambda>row. currency_like (astype_str (col_cell row i))) df)"

text \<open>
  The test \<open>currency_count / len(df) > 0.5\<close> of line 111. The quotient of two row counts
  exceeds one half exactly when twice the count exceeds the number of rows; \<open>len(df)\<close>
  is at least 1 where the test runs.
\<close>

definition col_passes :: "table \<Rightarrow> nat \<Rightarrow> bool" where
  "col_passes df i = (2 * currency_count df i > length df)"

text \<open>
  The loop \<open>for i in range(df.shape[1] - 1, -1, -1)\<close> with its \<open>break\<close>:
  \<open>scan_columns df n\<close> looks at the columns \<open>n - 1\<close> down to \<open>0\<close> and returns the
  sentinel \<open>-1\<close> when none passes.
\<close>

primrec scan_columns :: "table \<Rightarrow> nat \<Rightarrow> int" where
  "scan_columns df 0 = - 1"
| "scan_columns df (Suc i) = (if col_passes df i then int i else scan_columns df i)"

definition price_col_index :: "table \<Rightarrow> int" where
  "price_col_index t = scan_columns (data_rows t) (shape1 t)"

definition desc_col_index :: "int \<Rightarrow> int" where
  "desc_col_index p = max 0 (p - 1)"

text \<open>\<open>.str.replace('\n', ' ', regex=False).str.strip()\<close> on one description cell.\<close>

definition normalize_description :: "string \<Rightarrow> string" where
  "normalize_description s = py_strip (map (\<lambda>c. if c = NL then CHR '' '' else c) s)"

definition df_filtered :: "table \<Rightarrow> int \<Rightarrow> table" where
  "df_filtered df p = filter (\<lambda>row. currency_like (astype_str (col_cell row (nat p)))) df"

text \<open>
  Lines 99 to 121: the value of \<open>output_df\<close> when Strategy A is done. The price of a
  record is the cell itself; a row that survives the filter has a string there.
\<close>

definition strategy_A :: "table option \<Rightarrow> line_item list option" where
  "strategy_A table_data =
     (case table_data of
        None \<Rightarrow> None
      | Some t \<Rightarrow>
          if t \<noteq> [] \<and> length t > 1 then
            (let df = data_rows t;
                 p = price_col_index t
             in if p \<noteq> - 1 then
                  (let d = desc_col_index p
                   in Some (map (\<lambda>row. \<lparr>Description = normalize_description (astype_str (col_cell row (nat d))),
                                         Total_Price = astype_str (col_cell row (nat p))\<rparr>)
                                (df_filtered df p)))
                else None)
          else None)"

section \<open>The extractor \<open>extract_line_items_from_pdf\<close>\<close>

text \<open>
  \<open>get_vendor_info\<close>. The index \<open>[0]\<close> after \<open>split\<close> is \<open>hd\<close>: \<open>py_split\<close> always returns
  at least one piece.
\<close>

definition get_vendor_info :: "string \<Rightarrow> string" where
  "get_vendor_info filename =
     (if py_in ''Haskins Inc'' filename \<or> py_in ''Rinker'' filename then ''Rinker''
      else if py_in ''Foley'' filename then ''Foley''
      else hd (py_split (CHR ''.'') (hd (py_split (CHR ''_'') (basename filename)))))"

type_synonym bbox = "int \<times> int \<times> int \<times> int"

definition GENERIC_CROP_AREA :: bbox where
  "GENERIC_CROP_AREA = (20, 250, 590, 780)"

definition use_generic_crop :: "string \<Rightarrow> bool" where
  "use_generic_crop vendor = (vendor = ''Rinker'' \<or> vendor = ''Foley'')"

text \<open>Line 95: the region handed to \<open>page.crop\<close>, or \<open>None\<close> for the whole page.\<close>

definition crop_choice :: "string \<Rightarrow> bbox option" where
  "crop_choice vendor = (if use_generic_crop vendor then Some GENERIC_CROP_AREA else None)"

text \<open>
  The first page as the PDF library presents it: \<open>extract_table page None\<close> is
  \<open>page.extract_table(...)\<close>, \<open>extract_table page (Some box)\<close> is
  \<open>page.crop(box).extract_table(...)\<close>, both with \<open>GENERIC_STREAM_SETTINGS\<close>;
  \<open>extract_text page\<close> is \<open>page.extract_text()\<close>. A document on which a library call inside the
  \<open>try\<close> block raises is \<open>Unreadable\<close>.
\<close>

record page =
  extract_table :: "bbox option \<Rightarrow> table option"
  extract_text :: string

datatype pdf_doc = Unreadable | FirstPage page

datatype report =
    Vendor string
  | Strategy_A_attempt
  | Strategy_A_table
  | Strategy_B_fallback
  | Regex_success nat
  | Final_success nat string
  | Error_no_data
  | Unexpected_error

text \<open>
  A run returns its boolean, the lines it printed and the files as it leaves them. A
  report file holds the rows handed to the external formatter \<open>to_markdown\<close>.
\<close>

record extraction =
  returned :: bool
  printed :: "report list"
  files :: "string \<rightharpoonup> line_item list"

text \<open>Line 82: the name of the report file.\<close>

definition output_file_name :: "string \<Rightarrow> string" where
  "output_file_name pdf_path = py_replace_del ''.pdf'' (basename pdf_path) @ ''_extracted.md''"

text \<open>Lines 94 to 97: the table Strategy A works on.\<close>

definition table_data_of :: "string \<Rightarrow> page \<Rightarrow> table option" where
  "table_data_of pdf_path page =
     extract_table page (crop_choice (get_vendor_info (basename pdf_path)))"

definition extract_line_items_from_pdf ::
  "string \<Rightarrow> pdf_doc \<Rightarrow> (string \<rightharpoonup> line_item list) \<Rightarrow> extraction" where
  "extract_line_items_from_pdf pdf_path doc fs =
     (let filename = basename pdf_path;
          vendor = get_vendor_info filename;
          output_file = output_file_name pdf_path
      in case doc of
           Unreadable \<Rightarrow>
             \<lparr>returned = False, printed = [Vendor vendor, Unexpected_error], files = fs\<rparr>
         | FirstPage page \<Rightarrow>
             (let table_data = table_data_of pdf_path page;
                  output_A = strategy_A table_data;
                  table_found = (case table_data of None \<Rightarrow> False | Some t \<Rightarrow> t \<noteq> [] \<and> length t > 1);
                  run_B = (output_A = None \<or> output_A = Some []);
                  output_B = extract_with_regex (extract_text page);
                  output_df = (if run_B then output_B else output_A);
                  lines_A = [Vendor vendor, Strategy_A_attempt] @ (if table_found then [Strategy_A_table] else []);
                  lines_B = (if run_B
                             then Strategy_B_fallback #
                                  (case output_B of None \<Rightarrow> [] | Some data \<Rightarrow> [Regex_success (length data)])
                             else [])
              in case output_df of
                   None \<Rightarrow>
                     \<lparr>returned = False, printed = lines_A @ lines_B @ [Error_no_data], files = fs\<rparr>
                 | Some rows \<Rightarrow>
                     if rows \<noteq> [] then
                       \<lparr>returned = True,
                        printed = lines_A @ lines_B @ [Final_success (length rows) output_file],
                        files = fs(output_file \<mapsto> rows)\<rparr>
                     else
                       \<lparr>returned = False, printed = lines_A @ lines_B @ [Error_no_data], files = fs\<rparr>))"

section \<open>The two OCR scripts\<close>

text \<open>
  What a run of \<open>convert_to_searchable_pdf\<close> finds: whether the path exists, what
  reading the first page gives (its text, or an exception), and what rendering the page
  and running the OCR engine gives (the PDF data, or one of the two failures the code
  tells apart).
\<close>

datatype read_error = Read_error

datatype ocr_failure = Tesseract_not_found | Other_failure

record pdf_env =
  file_exists :: bool
  first_page_text :: "read_error + string"
  ocr_engine :: "ocr_failure + string"

datatype message =
    File_not_found
  | Searchable
  | Error_reading
  | Already_processed
  | Performing_ocr
  | Ocr_success string
  | Tesseract_missing
  | Ocr_error

text \<open>
  What a run does, in order: the lines it prints, its entry into the OCR block (rendering
  and the engine call), and the file it writes.
\<close>

datatype event = Print message | Run_ocr | Write_file string string

definition OCR_MARKER :: string where
  "OCR_MARKER = ''_OCR_Layer.pdf''"

text \<open>The OCR block shared by both scripts (from \<open>output_pdf_path = ...\<close> to the end).\<close>

definition perform_ocr :: "pdf_env \<Rightarrow> string \<Rightarrow> string option \<times> event list" where
  "perform_ocr env input_pdf_path =
     (let output_pdf_path = py_replace_del ''.pdf'' (basename input_pdf_path) @ ''_OCR_Layer.pdf''
      in case ocr_engine env of
           Inr pdf_data \<Rightarrow>
             (Some output_pdf_path,
              [Print Performing_ocr, Run_ocr, Write_file output_pdf_path pdf_data,
               Print (Ocr_success output_pdf_path)])
         | Inl Tesseract_not_found \<Rightarrow> (None, [Print Performing_ocr, Run_ocr, Print Tesseract_missing])
         | Inl Other_failure \<Rightarrow> (None, [Print Performing_ocr, Run_ocr, Print Ocr_error]))"

text \<open>\<open>convert_to_searchable_pdf\<close> of \<open>ocr.py\<close>.\<close>

definition convert_to_searchable_pdf_single :: "pdf_env \<Rightarrow> string \<Rightarrow> string option \<times> event list" where
  "convert_to_searchable_pdf_single env input_pdf_path =
     (if \<not> file_exists env then (None, [Print File_not_found])
      else case first_page_text env of
             Inl e \<Rightarrow> (None, [Print Error_reading])
           | Inr text_on_page \<Rightarrow>
               if length (py_strip text_on_page) > 100
               then (Some input_pdf_path, [Print Searchable])
               else perform_ocr env input_pdf_path)"

text \<open>\<open>convert_to_searchable_pdf\<close> of \<open>batch_ocr.py\<close>.\<close>

definition convert_to_searchable_pdf_batch :: "pdf_env \<Rightarrow> string \<Rightarrow> string option \<times> event list" where
  "convert_to_searchable_pdf_batch env input_pdf_path =
     (let filename = basename input_pdf_path
      in if \<not> file_exists env then (None, [Print File_not_found])
         else
           (let after_check =
                  (case first_page_text env of
                     Inl e \<Rightarrow> Inr [Print Error_reading]
                   | Inr text_on_page \<Rightarrow>
                       if length (py_strip text_on_page) > 100 \<and> \<not> py_in OCR_MARKER filename
                       then Inl (Some input_pdf_path, [Print Searchable])
                       else Inr [])
            in case after_check of
                 Inl result \<Rightarrow> result
               | Inr printed_so_far \<Rightarrow>
                   if py_in OCR_MARKER filename
                   then (None, printed_so_far @ [Print Already_processed])
                   else (case perform_ocr env input_pdf_path of
                           (r, evs) \<Rightarrow> (r, printed_so_far @ evs))))"

section \<open>Reference notions the statements below are measured against\<close>

text \<open>
  The words a pattern can read, without any order of preference: the usual language of a
  regular expression. The end anchor reads nothing.
\<close>

fun lang :: "regex \<Rightarrow> string set" where
  "lang (Atom a) = {[c] | c. atom_ok a c}"
| "lang (Seq r1 r2) = {u @ v | u v. u \<in> lang r1 \<and> v \<in> lang r2}"
| "lang (Rep lo hi greedy r) =
     {concat ws | ws. lo \<le> length ws \<and> (case hi of None \<Rightarrow> True | Some h \<Rightarrow> length ws \<le> h)
                      \<and> set ws \<subseteq> lang r}"
| "lang (Group n r) = lang r"
| "lang Eol = {[]}"

fun group_free :: "regex \<Rightarrow> bool" where
  "group_free (Atom a) = True"
| "group_free (Seq r1 r2) = (group_free r1 \<and> group_free r2)"
| "group_free (Rep lo hi greedy r) = group_free r"
| "group_free (Group n r) = False"
| "group_free Eol = True"

text \<open>
  The currency format of an Extraction Record, \<open>$d{1,3}(,ddd)*.dd\<close>, spelled out: a
  dollar sign, one to three digits, any number of groups of a comma and three digits, a
  dot and two digits.
\<close>

definition is_currency :: "string \<Rightarrow> bool" where
  "is_currency p =
     (\<exists>d gs c. p = ''$'' @ d @ concat (map (\<lambda>g. CHR '','' # g) gs) @ ''.'' @ c
        \<and> 1 \<le> length d \<and> length d \<le> 3 \<and> list_all is_digit d
        \<and> (\<forall>g \<in> set gs. length g = 3 \<and> list_all is_digit g)
        \<and> length c = 2 \<and> list_all is_digit c)"

text \<open>
  The column test as the specification words it: more than half of the column's
  non-null cells are currency-like. It differs from \<open>col_passes\<close> in the denominator.
\<close>

definition nonnull_count :: "table \<Rightarrow> nat \<Rightarrow> nat" where
  "nonnull_count df i = length (filter (\<lambda>row. col_cell row i \<noteq> None) df)"

definition spec_col_passes :: "table \<Rightarrow> nat \<Rightarrow> bool" where
  "spec_col_passes df i = (2 * currency_count df i > nonnull_count df i)"

section \<open>Strategy A: the choice of the price column\<close>

lemma scan_columns_found:
  "scan_columns df n = int i \<longleftrightarrow>
     i < n \<and> col_passes df i \<and> (\<forall>j. i < j \<and> j < n \<longrightarrow> \<not> col_passes df j)"
proof (induction n)
  case 0
  then show ?case by simp
next
  case (Suc n)
  show ?case
  proof (cases "col_passes df n")
    case True
    then show ?thesis
      by (auto simp: less_Suc_eq)
  next
    case False
    then show ?thesis
      using Suc.IH by (auto simp: less_Suc_eq)
  qed
qed

lemma scan_columns_none:
  "scan_columns df n = - 1 \<longleftrightarrow> (\<forall>j<n. \<not> col_passes df j)"
  by (induction n) (auto simp: less_Suc_eq)

lemma scan_columns_range:
  "scan_columns df n = - 1 \<or> (\<exists>i<n. scan_columns df n = int i)"
  by (induction n) (auto simp: less_Suc_eq)

lemma df_filtered_nonempty:
  assumes "col_passes df i"
  shows "df_filtered df (int i) \<noteq> []"
proof -
  from assms have "0 < currency_count df i"
    by (simp add: col_passes_def)
  then show ?thesis
    by (auto simp: currency_count_def df_filtered_def)
qed

text \<open>A row that survives the filter has a string, not a null, in the price column.\<close>

lemma df_filtered_cell:
  assumes "row \<in> set (df_filtered df p)"
  shows "\<exists>s. col_cell row (nat p) = Some s \<and> astype_str (col_cell row (nat p)) = s"
  using assms
  by (cases "col_cell row (nat p)")
     (auto simp: df_filtered_def astype_str_def currency_like_def is_digit_def)

lemma strategy_A_rows:
  assumes "strategy_A table_data = Some rows"
  obtains t where "table_data = Some t" and "length t > 1" and "price_col_index t \<noteq> - 1"
    and "rows = map (\<lambda>row. \<lparr>Description = normalize_description
                                 (astype_str (col_cell row (nat (desc_col_index (price_col_index t))))),
                             Total_Price = astype_str (col_cell row (nat (price_col_index t)))\<rparr>)
                    (df_filtered (data_rows t) (price_col_index t))"
  using assms by (auto simp: strategy_A_def Let_def split: option.splits if_splits)

lemma strategy_A_nonempty:
  assumes "strategy_A table_data = Some rows"
  shows "rows \<noteq> []"
proof -
  from assms obtain t where t: "price_col_index t \<noteq> - 1"
    and rows: "rows = map (\<lambda>row. \<lparr>Description = normalize_description
                                 (astype_str (col_cell row (nat (desc_col_index (price_col_index t))))),
                             Total_Price = astype_str (col_cell row (nat (price_col_index t)))\<rparr>)
                    (df_filtered (data_rows t) (price_col_index t))"
    by (rule strategy_A_rows)
  from t obtain i where i: "price_col_index t = int i"
    using scan_columns_range [of "data_rows t" "shape1 t"] by (auto simp: price_col_index_def)
  then have "col_passes (data_rows t) i"
    by (simp add: price_col_index_def scan_columns_found)
  then show ?thesis
    using df_filtered_nonempty i rows by simp
qed

text \<open>
  Claim C2, as stated, fails: the share is taken over all data rows, not over the
  column's non-null cells. Below, the only non-null data cell of the \<open>Total\<close> column is
  a price, so the column passes the test as the claim words it; yet it holds a price in
  one row of three, no column is selected and Strategy A emits nothing.
\<close>

theorem price_column_nonnull_counterexample:
  "spec_col_passes
     (data_rows [[Some ''Item'', Some ''Total''],
                 [Some ''Gravel'', None],
                 [Some ''Sand'', None],
                 [Some ''Cement'', Some ''$5.00'']]) 1
   \<and> price_col_index [[Some ''Item'', Some ''Total''],
                       [Some ''Gravel'', None],
                       [Some ''Sand'', None],
                       [Some ''Cement'', Some ''$5.00'']] = - 1"
  by (simp add: price_col_index_def data_rows_def shape1_def col_passes_def currency_count_def
        astype_str_def col_cell_def currency_like_def is_digit_def spec_col_passes_def
        nonnull_count_def)

text \<open>
  Claim C2, amended. The price column is the rightmost column in which more than half
  of all data rows (the rows after the header, null cells counting as rows that do not
  match) hold a cell with a digit or a dollar sign: column \<open>i\<close> is selected exactly when
  it passes and no column to its right does. The sentinel \<open>-1\<close> is returned exactly when
  no column passes, and then Strategy A emits no records.
\<close>

theorem price_column_choice:
  "(price_col_index t = int i \<longleftrightarrow>
      i < shape1 t
      \<and> 2 * currency_count (data_rows t) i > length (data_rows t)
      \<and> (\<forall>j. i < j \<and> j < shape1 t \<longrightarrow>
             \<not> 2 * currency_count (data_rows t) j > length (data_rows t)))
   \<and> (price_col_index t = - 1 \<longleftrightarrow>
        (\<forall>j<shape1 t. \<not> 2 * currency_count (data_rows t) j > length (data_rows t)))
   \<and> (price_col_index t = - 1 \<longrightarrow> strategy_A (Some t) = None)"
proof -
  have "price_col_index t = - 1 \<longrightarrow> strategy_A (Some t) = None"
    by (simp add: strategy_A_def)
  then show ?thesis
    using scan_columns_found [of "data_rows t" "shape1 t" i]
      scan_columns_none [of "data_rows t" "shape1 t"]
    by (simp add: price_col_index_def col_passes_def)
qed

theorem price_column_choice_witness:
  "price_col_index
     [[Some ''Qty'', Some ''Description'', Some ''Unit Price'', Some ''Total''],
      [Some ''2'', Some ''Gravel 3/4 inch'', Some ''$40.00'', Some ''$80.00''],
      [Some ''1'', Some ''Delivery'', Some ''$25.00'', Some ''$25.00''],
      [None, Some ''Subtotal'', None, None]] = 3
   \<and> price_col_index [[Some ''Item'', Some ''Total''], [Some ''Gravel'', None]] = - 1
   \<and> strategy_A (Some [[Some ''Item'', Some ''Total''], [Some ''Gravel'', None]]) = None"
  using price_column_choice
      [of "[[Some ''Qty'', Some ''Description'', Some ''Unit Price'', Some ''Total''],
            [Some ''2'', Some ''Gravel 3/4 inch'', Some ''$40.00'', Some ''$80.00''],
            [Some ''1'', Some ''Delivery'', Some ''$25.00'', Some ''$25.00''],
            [None, Some ''Subtotal'', None, None]]" 3]
    price_column_choice [of "[[Some ''Item'', Some ''Total''], [Some ''Gravel'', None]]" 0]
  by (simp add: price_col_index_def data_rows_def shape1_def col_passes_def currency_count_def
        astype_str_def col_cell_def currency_like_def is_digit_def)

text \<open>
  Claim C7. When the selected price column is column 0, the description column is
  column 0 as well, so each record's description is the normalised text of its own
  price cell. When the selected price column is column \<open>i > 0\<close>, the description
  column is column \<open>i - 1\<close>.
\<close>

theorem description_column_choice:
  "(price_col_index t = 0 \<longrightarrow>
      desc_col_index (price_col_index t) = 0
      \<and> (length t > 1 \<longrightarrow>
           strategy_A (Some t)
             = Some (map (\<lambda>row. \<lparr>Description = normalize_description (astype_str (col_cell row 0)),
                                   Total_Price = astype_str (col_cell row 0)\<rparr>)
                         (df_filtered (data_rows t) 0))))
   \<and> (price_col_index t = int i \<and> 0 < i \<longrightarrow>
        desc_col_index (price_col_index t) = int (i - 1)
        \<and> (length t > 1 \<longrightarrow>
             strategy_A (Some t)
               = Some (map (\<lambda>row. \<lparr>Description = normalize_description (astype_str (col_cell row (i - 1))),
                                     Total_Price = astype_str (col_cell row i)\<rparr>)
                           (df_filtered (data_rows t) (int i)))))"
proof -
  have zero: "desc_col_index 0 = 0" and pos: "0 < i \<Longrightarrow> desc_col_index (int i) = int (i - 1)"
    by (auto simp: desc_col_index_def)
  have A: "strategy_A (Some t)
             = Some (map (\<lambda>row. \<lparr>Description = normalize_description
                                       (astype_str (col_cell row (nat (desc_col_index (price_col_index t))))),
                                   Total_Price = astype_str (col_cell row (nat (price_col_index t)))\<rparr>)
                         (df_filtered (data_rows t) (price_col_index t)))"
    if "length t > 1" and "price_col_index t \<noteq> - 1"
    using that by (auto simp: strategy_A_def Let_def)
  show ?thesis
  proof (intro conjI impI)
    assume "price_col_index t = 0"
    then show "desc_col_index (price_col_index t) = 0" using zero by simp
  next
    assume p: "price_col_index t = 0" and l: "1 < length t"
    show "strategy_A (Some t)
             = Some (map (\<lambda>row. \<lparr>Description = normalize_description (astype_str (col_cell row 0)),
                                   Total_Price = astype_str (col_cell row 0)\<rparr>)
                         (df_filtered (data_rows t) 0))"
      using A [OF l] p zero by simp
  next
    assume "price_col_index t = int i \<and> 0 < i"
    then show "desc_col_index (price_col_index t) = int (i - 1)" using pos by simp
  next
    assume p: "price_col_index t = int i \<and> 0 < i" and l: "1 < length t"
    show "strategy_A (Some t)
               = Some (map (\<lambda>row. \<lparr>Description = normalize_description (astype_str (col_cell row (i - 1))),
                                     Total_Price = astype_str (col_cell row i)\<rparr>)
                           (df_filtered (data_rows t) (int i)))"
    proof -
      have "nat (int i - 1) = i - 1" by arith
      then show ?thesis using A [OF l] p pos by simp
    qed
  qed
qed

theorem description_column_choice_witness:
  "price_col_index [[Some ''Total''], [Some ''$80.00''], [Some ''$25.00'']] = 0
   \<and> strategy_A (Some [[Some ''Total''], [Some ''$80.00''], [Some ''$25.00'']])
     = Some [\<lparr>Description = ''$80.00'', Total_Price = ''$80.00''\<rparr>,
             \<lparr>Description = ''$25.00'', Total_Price = ''$25.00''\<rparr>]
   \<and> price_col_index [[Some ''Qty'', Some ''Description'', Some ''Unit Price'', Some ''Total''],
                       [Some ''2'', Some ''Gravel 3/4 inch'', Some ''$40.00'', Some ''$80.00'']] = 3
   \<and> strategy_A (Some [[Some ''Qty'', Some ''Description'', Some ''Unit Price'', Some ''Total''],
                        [Some ''2'', Some ''Gravel 3/4 inch'', Some ''$40.00'', Some ''$80.00'']])
     = Some [\<lparr>Description = ''$40.00'', Total_Price = ''$80.00''\<rparr>]"
proof -
  have P0: "price_col_index [[Some ''Total''], [Some ''$80.00''], [Some ''$25.00'']] = 0"
    by (simp add: price_col_index_def data_rows_def shape1_def col_passes_def
          currency_count_def astype_str_def col_cell_def currency_like_def is_digit_def)
  have P3: "price_col_index [[Some ''Qty'', Some ''Description'', Some ''Unit Price'', Some ''Total''],
                       [Some ''2'', Some ''Gravel 3/4 inch'', Some ''$40.00'', Some ''$80.00'']] = int 3"
    by (simp add: price_col_index_def data_rows_def shape1_def col_passes_def
          currency_count_def astype_str_def col_cell_def currency_like_def is_digit_def)
  show ?thesis
    using description_column_choice
        [of "[[Some ''Total''], [Some ''$80.00''], [Some ''$25.00'']]" 0]
      description_column_choice
        [of "[[Some ''Qty'', Some ''Description'', Some ''Unit Price'', Some ''Total''],
              [Some ''2'', Some ''Gravel 3/4 inch'', Some ''$40.00'', Some ''$80.00'']]" 3]
      P0 P3
    by (simp add: data_rows_def df_filtered_def astype_str_def col_cell_def currency_like_def
          is_digit_def normalize_description_def py_strip_def is_space_def)
qed

section \<open>The extractor: which strategy's rows are reported\<close>

lemma extract_after_A_rows:
  assumes "strategy_A (table_data_of pdf_path page) = Some rows"
  shows "Strategy_B_fallback \<notin> set (printed (extract_line_items_from_pdf pdf_path (FirstPage page) fs))"
    and "returned (extract_line_items_from_pdf pdf_path (FirstPage page) fs)"
    and "files (extract_line_items_from_pdf pdf_path (FirstPage page) fs)
           = fs(output_file_name pdf_path \<mapsto> rows)"
proof -
  from assms have ne: "rows \<noteq> []"
    by (rule strategy_A_nonempty)
  show "Strategy_B_fallback \<notin> set (printed (extract_line_items_from_pdf pdf_path (FirstPage page) fs))"
    using assms ne by (simp add: extract_line_items_from_pdf_def Let_def)
  show "returned (extract_line_items_from_pdf pdf_path (FirstPage page) fs)"
    using assms ne by (simp add: extract_line_items_from_pdf_def Let_def)
  show "files (extract_line_items_from_pdf pdf_path (FirstPage page) fs)
           = fs(output_file_name pdf_path \<mapsto> rows)"
    using assms ne by (simp add: extract_line_items_from_pdf_def Let_def)
qed

lemma extract_after_A_none:
  assumes "strategy_A (table_data_of pdf_path page) = None"
  shows "Strategy_B_fallback \<in> set (printed (extract_line_items_from_pdf pdf_path (FirstPage page) fs))"
    and "returned (extract_line_items_from_pdf pdf_path (FirstPage page) fs) \<Longrightarrow>
         files (extract_line_items_from_pdf pdf_path (FirstPage page) fs) (output_file_name pdf_path)
           = extract_with_regex (extract_text page)"
    and "extract_with_regex (extract_text page) = None \<Longrightarrow>
         \<not> returned (extract_line_items_from_pdf pdf_path (FirstPage page) fs)
         \<and> files (extract_line_items_from_pdf pdf_path (FirstPage page) fs) = fs"
proof -
  show "Strategy_B_fallback \<in> set (printed (extract_line_items_from_pdf pdf_path (FirstPage page) fs))"
    using assms by (simp add: extract_line_items_from_pdf_def Let_def split: option.split)
  show "files (extract_line_items_from_pdf pdf_path (FirstPage page) fs) (output_file_name pdf_path)
           = extract_with_regex (extract_text page)"
    if "returned (extract_line_items_from_pdf pdf_path (FirstPage page) fs)"
    using assms that
    by (simp add: extract_line_items_from_pdf_def Let_def split: option.splits if_splits)
  show "\<not> returned (extract_line_items_from_pdf pdf_path (FirstPage page) fs)
         \<and> files (extract_line_items_from_pdf pdf_path (FirstPage page) fs) = fs"
    if "extract_with_regex (extract_text page) = None"
    using assms that by (simp add: extract_line_items_from_pdf_def Let_def)
qed

lemma strategy_A_found:
  "length t \<ge> 2 \<and> price_col_index t \<noteq> - 1 \<longrightarrow> strategy_A (Some t) \<noteq> None"
  by (auto simp: strategy_A_def Let_def)

lemma strategy_A_none_iff:
  "strategy_A table_data = None \<longleftrightarrow>
     table_data = None
     \<or> (\<exists>t. table_data = Some t \<and> (length t < 2 \<or> price_col_index t = - 1))"
  by (auto simp: strategy_A_def Let_def split: option.splits)

text \<open>
  Claim C3. On a page whose table (after the vendor's crop, if any) has at least two
  rows and a price column, the fallback line of Strategy B is never printed, the run
  succeeds and the report holds exactly Strategy A's rows. Strategy B runs only when
  Strategy A has produced nothing, which is when there is no table, or fewer than two
  rows, or no price column. A successful run reports the rows of one strategy alone:
  Strategy B's when it ran, Strategy A's otherwise.
\<close>

theorem strategy_A_precedence:
  "(table_data_of pdf_path page = Some t \<and> length t \<ge> 2 \<and> price_col_index t \<noteq> - 1 \<longrightarrow>
      Strategy_B_fallback \<notin> set (printed (extract_line_items_from_pdf pdf_path (FirstPage page) fs))
      \<and> returned (extract_line_items_from_pdf pdf_path (FirstPage page) fs)
      \<and> files (extract_line_items_from_pdf pdf_path (FirstPage page) fs)
          = fs(output_file_name pdf_path := strategy_A (Some t)))
   \<and> (Strategy_B_fallback \<in> set (printed (extract_line_items_from_pdf pdf_path (FirstPage page) fs)) \<longrightarrow>
        strategy_A (table_data_of pdf_path page) = None
        \<and> (table_data_of pdf_path page = None
           \<or> (\<exists>t'. table_data_of pdf_path page = Some t'
                    \<and> (length t' < 2 \<or> price_col_index t' = - 1))))
   \<and> (returned (extract_line_items_from_pdf pdf_path (FirstPage page) fs) \<longrightarrow>
        files (extract_line_items_from_pdf pdf_path (FirstPage page) fs) (output_file_name pdf_path)
          = (if Strategy_B_fallback \<in> set (printed (extract_line_items_from_pdf pdf_path (FirstPage page) fs))
             then extract_with_regex (extract_text page)
             else strategy_A (table_data_of pdf_path page)))"
proof (cases "strategy_A (table_data_of pdf_path page)")
  case None
  then have "\<not> (table_data_of pdf_path page = Some t \<and> length t \<ge> 2 \<and> price_col_index t \<noteq> - 1)"
    using strategy_A_found [of t] by (cases "table_data_of pdf_path page = Some t") simp_all
  moreover have "Strategy_B_fallback \<in> set (printed (extract_line_items_from_pdf pdf_path (FirstPage page) fs))"
    using None by (rule extract_after_A_none(1))
  moreover have "returned (extract_line_items_from_pdf pdf_path (FirstPage page) fs) \<longrightarrow>
      files (extract_line_items_from_pdf pdf_path (FirstPage page) fs) (output_file_name pdf_path)
        = extract_with_regex (extract_text page)"
    using None extract_after_A_none(2) by blast
  moreover have "table_data_of pdf_path page = None
           \<or> (\<exists>t'. table_data_of pdf_path page = Some t'
                    \<and> (length t' < 2 \<or> price_col_index t' = - 1))"
    using None by (simp only: strategy_A_none_iff)
  ultimately show ?thesis
    using None by simp
next
  case (Some rows)
  have "Strategy_B_fallback \<notin> set (printed (extract_line_items_from_pdf pdf_path (FirstPage page) fs))"
    and "returned (extract_line_items_from_pdf pdf_path (FirstPage page) fs)"
    and "files (extract_line_items_from_pdf pdf_path (FirstPage page) fs)
           = fs(output_file_name pdf_path \<mapsto> rows)"
    using Some extract_after_A_rows by blast+
  then show ?thesis
    using Some by auto
qed

theorem strategy_A_precedence_witness:
  "Strategy_B_fallback \<notin> set (printed (extract_line_items_from_pdf ''in/Rinker_0117.pdf''
      (FirstPage \<lparr>extract_table = (\<lambda>crop. Some [[Some ''Description'', Some ''Total''],
                                                  [Some ''Gravel 3/4 inch'', Some ''$80.00'']]),
                  extract_text = ''Gravel 3/4 inch $80.00''\<rparr>) Map.empty))
   \<and> files (extract_line_items_from_pdf ''in/Rinker_0117.pdf''
      (FirstPage \<lparr>extract_table = (\<lambda>crop. Some [[Some ''Description'', Some ''Total''],
                                                  [Some ''Gravel 3/4 inch'', Some ''$80.00'']]),
                  extract_text = ''Gravel 3/4 inch $80.00''\<rparr>) Map.empty) ''Rinker_0117_extracted.md''
     = Some [\<lparr>Description = ''Gravel 3/4 inch'', Total_Price = ''$80.00''\<rparr>]
   \<and> Strategy_B_fallback \<in> set (printed (extract_line_items_from_pdf ''in/Rinker_0117.pdf''
      (FirstPage \<lparr>extract_table = (\<lambda>crop. None), extract_text = ''''\<rparr>) Map.empty))"
proof -
  have A: "strategy_A (Some [[Some ''Description'', Some ''Total''],
                             [Some ''Gravel 3/4 inch'', Some ''$80.00'']])
           = Some [\<lparr>Description = ''Gravel 3/4 inch'', Total_Price = ''$80.00''\<rparr>]"
    by (simp add: strategy_A_def price_col_index_def data_rows_def shape1_def col_passes_def
          currency_count_def astype_str_def col_cell_def currency_like_def is_digit_def
          desc_col_index_def df_filtered_def normalize_description_def py_strip_def is_space_def)
  have P: "price_col_index [[Some ''Description'', Some ''Total''],
                             [Some ''Gravel 3/4 inch'', Some ''$80.00'']] = 1"
    by (simp add: price_col_index_def data_rows_def shape1_def col_passes_def
          currency_count_def astype_str_def col_cell_def currency_like_def is_digit_def)
  have N: "output_file_name ''in/Rinker_0117.pdf'' = ''Rinker_0117_extracted.md''"
    by (simp add: output_file_name_def basename_def py_replace_del.simps)
  have B: "Strategy_B_fallback \<in> set (printed (extract_line_items_from_pdf ''in/Rinker_0117.pdf''
      (FirstPage \<lparr>extract_table = (\<lambda>crop. None), extract_text = ''''\<rparr>) Map.empty))"
    by (simp add: extract_line_items_from_pdf_def table_data_of_def strategy_A_def Let_def
          split: option.split)
  show ?thesis
    using strategy_A_precedence
      [of "''in/Rinker_0117.pdf''"
          "\<lparr>extract_table = (\<lambda>crop. Some [[Some ''Description'', Some ''Total''],
                                           [Some ''Gravel 3/4 inch'', Some ''$80.00'']]),
            extract_text = ''Gravel 3/4 inch $80.00''\<rparr>"
          "[[Some ''Description'', Some ''Total''], [Some ''Gravel 3/4 inch'', Some ''$80.00'']]"
          Map.empty]
      A P N B
    by (simp add: table_data_of_def)
qed

text \<open>
  Claim C9. When Strategy A yields no rows and Strategy B yields none either, the
  extractor returns \<open>False\<close> and leaves the files as they were: no report is written.
\<close>

theorem no_records_no_report:
  assumes "strategy_A (table_data_of pdf_path page) = None
         \<or> strategy_A (table_data_of pdf_path page) = Some []"
    and "extract_with_regex (extract_text page) = None"
  shows "returned (extract_line_items_from_pdf pdf_path (FirstPage page) fs) = False
       \<and> files (extract_line_items_from_pdf pdf_path (FirstPage page) fs) = fs"
proof -
  from assms(1) have "strategy_A (table_data_of pdf_path page) = None"
    using strategy_A_nonempty by blast
  then show ?thesis
    using extract_after_A_none(3) assms(2) by simp
qed

theorem no_records_no_report_witness:
  "returned (extract_line_items_from_pdf ''in/Acme_0042.pdf''
      (FirstPage \<lparr>extract_table = (\<lambda>crop. Some [[Some ''Item'', Some ''Notes'']]),
                  extract_text = ''Thank you for your business''\<rparr>) Map.empty) = False
   \<and> files (extract_line_items_from_pdf ''in/Acme_0042.pdf''
      (FirstPage \<lparr>extract_table = (\<lambda>crop. Some [[Some ''Item'', Some ''Notes'']]),
                  extract_text = ''Thank you for your business''\<rparr>) Map.empty) = Map.empty"
proof -
  have A: "strategy_A (Some [[Some ''Item'', Some ''Notes'']]) = None"
    by (simp add: strategy_A_def)
  have B: "extract_with_regex ''Thank you for your business'' = None"
    by code_simp
  show ?thesis
    using no_records_no_report
      [of "''in/Acme_0042.pdf''"
          "\<lparr>extract_table = (\<lambda>crop. Some [[Some ''Item'', Some ''Notes'']]),
            extract_text = ''Thank you for your business''\<rparr>" Map.empty]
      A B
    by (simp add: table_data_of_def)
qed

section \<open>The vendor and the crop\<close>

lemma starts_with_iff: "starts_with a s \<longleftrightarrow> (\<exists>ss. s = a @ ss)"
  by (induction a s rule: starts_with.induct) auto

lemma py_in_iff: "py_in sub s \<longleftrightarrow> (\<exists>ps ss. s = ps @ sub @ ss)"
proof (induction s)
  case Nil
  then show ?case by auto
next
  case (Cons c cs)
  show ?case
  proof
    assume "py_in sub (c # cs)"
    then consider "starts_with sub (c # cs)" | "py_in sub cs" by auto
    then show "\<exists>ps ss. c # cs = ps @ sub @ ss"
    proof cases
      case 1
      then obtain ss where "c # cs = sub @ ss" by (auto simp: starts_with_iff)
      then have "c # cs = [] @ sub @ ss" by simp
      then show ?thesis by blast
    next
      case 2
      then obtain ps ss where "cs = ps @ sub @ ss" using Cons.IH by blast
      then have "c # cs = (c # ps) @ sub @ ss" by simp
      then show ?thesis by blast
    qed
  next
    assume "\<exists>ps ss. c # cs = ps @ sub @ ss"
    then obtain ps ss where eq: "c # cs = ps @ sub @ ss" by blast
    show "py_in sub (c # cs)"
    proof (cases ps)
      case Nil
      then have "starts_with sub (c # cs)" using eq by (auto simp: starts_with_iff)
      then show ?thesis by simp
    next
      case (Cons p ps')
      then have "cs = ps' @ sub @ ss" using eq by simp
      then have "py_in sub cs" using Cons.IH by blast
      then show ?thesis by simp
    qed
  qed
qed

lemma py_split_nonempty: "py_split sep s \<noteq> []"
  by (induction s) (auto split: list.split)

lemma hd_py_split: "hd (py_split sep s) = takeWhile (\<lambda>c. c \<noteq> sep) s"
  using py_split_nonempty [of sep] by (induction s) (auto split: list.split)

lemma takeWhile_takeWhile: "takeWhile P (takeWhile Q s) = takeWhile (\<lambda>c. Q c \<and> P c) s"
  by (induction s) auto

lemma basename_suffix: "\<exists>ps. p = ps @ basename p"
proof -
  have "rev (takeWhile (\<lambda>c. c \<noteq> CHR ''/'') (rev p) @ dropWhile (\<lambda>c. c \<noteq> CHR ''/'') (rev p)) = p"
    by (simp only: takeWhile_dropWhile_id rev_rev_ident)
  then have "rev (dropWhile (\<lambda>c. c \<noteq> CHR ''/'') (rev p)) @ basename p = p"
    by (simp only: rev_append basename_def)
  then show ?thesis by metis
qed

lemma leading_token_in_filename:
  "py_in (takeWhile P (basename filename)) filename"
proof -
  obtain ps where ps: "filename = ps @ basename filename"
    using basename_suffix by blast
  have "basename filename = takeWhile P (basename filename) @ dropWhile P (basename filename)"
    by simp
  with ps have "filename = ps @ takeWhile P (basename filename) @ dropWhile P (basename filename)"
    by simp
  then show ?thesis
    unfolding py_in_iff by blast
qed

lemma fallback_vendor:
  "hd (py_split (CHR ''.'') (hd (py_split (CHR ''_'') (basename filename))))
     = takeWhile (\<lambda>c. c \<noteq> CHR ''_'' \<and> c \<noteq> CHR ''.'') (basename filename)"
  by (simp add: hd_py_split takeWhile_takeWhile)

text \<open>
  Claim C10, as stated, fails: a file name that contains \<open>Foley\<close> but also \<open>Rinker\<close>
  (or \<open>Haskins Inc\<close>) gets the vendor \<open>Rinker\<close>, since that test comes first.
\<close>

theorem foley_and_rinker_counterexample:
  "py_in ''Foley'' ''Foley_Rinker_0117.pdf''
   \<and> get_vendor_info ''Foley_Rinker_0117.pdf'' = ''Rinker''"
  by (simp add: get_vendor_info_def)

text \<open>
  Claim C10, amended. A file name containing \<open>Haskins Inc\<close> or \<open>Rinker\<close> gets the
  vendor \<open>Rinker\<close>; one containing neither of them but \<open>Foley\<close> gets \<open>Foley\<close>; every
  other file name gets the text of its basename before the first \<open>_\<close> or \<open>.\<close>. The
  page is cropped to \<open>(20, 250, 590, 780)\<close> before the table is looked for exactly when
  the vendor is \<open>Rinker\<close> or \<open>Foley\<close>, hence for the first two kinds of file name and
  for no other.
\<close>

theorem vendor_and_crop:
  "(py_in ''Haskins Inc'' filename \<or> py_in ''Rinker'' filename \<longrightarrow>
      get_vendor_info filename = ''Rinker''
      \<and> crop_choice (get_vendor_info filename) = Some (20, 250, 590, 780))
   \<and> (\<not> py_in ''Haskins Inc'' filename \<and> \<not> py_in ''Rinker'' filename \<and> py_in ''Foley'' filename \<longrightarrow>
      get_vendor_info filename = ''Foley''
      \<and> crop_choice (get_vendor_info filename) = Some (20, 250, 590, 780))
   \<and> (\<not> py_in ''Haskins Inc'' filename \<and> \<not> py_in ''Rinker'' filename \<and> \<not> py_in ''Foley'' filename \<longrightarrow>
      get_vendor_info filename
        = takeWhile (\<lambda>c. c \<noteq> CHR ''_'' \<and> c \<noteq> CHR ''.'') (basename filename)
      \<and> crop_choice (get_vendor_info filename) = None)
   \<and> (crop_choice vendor = Some (20, 250, 590, 780) \<longleftrightarrow> vendor = ''Rinker'' \<or> vendor = ''Foley'')
   \<and> (crop_choice vendor = None \<longleftrightarrow> vendor \<noteq> ''Rinker'' \<and> vendor \<noteq> ''Foley'')
   \<and> table_data_of pdf_path page
       = extract_table page (crop_choice (get_vendor_info (basename pdf_path)))"
proof -
  have known: "crop_choice ''Rinker'' = Some (20, 250, 590, 780)"
    "crop_choice ''Foley'' = Some (20, 250, 590, 780)"
    by (simp_all add: crop_choice_def use_generic_crop_def GENERIC_CROP_AREA_def)
  have other: "crop_choice (get_vendor_info filename) = None"
    if "\<not> py_in ''Rinker'' filename" and "\<not> py_in ''Foley'' filename"
      and "get_vendor_info filename
             = takeWhile (\<lambda>c. c \<noteq> CHR ''_'' \<and> c \<noteq> CHR ''.'') (basename filename)"
  proof -
    have "py_in (get_vendor_info filename) filename"
      using that(3) leading_token_in_filename by simp
    with that(1,2) have "get_vendor_info filename \<noteq> ''Rinker''" "get_vendor_info filename \<noteq> ''Foley''"
      by auto
    then show ?thesis
      by (simp add: crop_choice_def use_generic_crop_def)
  qed
  have vendor: "crop_choice vendor = Some (20, 250, 590, 780) \<longleftrightarrow> vendor = ''Rinker'' \<or> vendor = ''Foley''"
    "crop_choice vendor = None \<longleftrightarrow> vendor \<noteq> ''Rinker'' \<and> vendor \<noteq> ''Foley''"
    by (simp_all add: crop_choice_def use_generic_crop_def GENERIC_CROP_AREA_def)
  have c1: "py_in ''Haskins Inc'' filename \<or> py_in ''Rinker'' filename \<longrightarrow>
      get_vendor_info filename = ''Rinker''"
    by (simp add: get_vendor_info_def)
  have c2: "\<not> py_in ''Haskins Inc'' filename \<and> \<not> py_in ''Rinker'' filename \<and> py_in ''Foley'' filename \<longrightarrow>
      get_vendor_info filename = ''Foley''"
    by (simp add: get_vendor_info_def)
  have c3: "\<not> py_in ''Haskins Inc'' filename \<and> \<not> py_in ''Rinker'' filename \<and> \<not> py_in ''Foley'' filename \<longrightarrow>
      get_vendor_info filename
        = takeWhile (\<lambda>c. c \<noteq> CHR ''_'' \<and> c \<noteq> CHR ''.'') (basename filename)"
    using fallback_vendor by (simp add: get_vendor_info_def)
  have c4: "table_data_of pdf_path page
       = extract_table page (crop_choice (get_vendor_info (basename pdf_path)))"
    by (simp add: table_data_of_def)
  show ?thesis
    using c1 c2 c3 c4 known other vendor by presburger
qed

theorem vendor_and_crop_witness:
  "get_vendor_info ''Haskins Inc_0117.pdf'' = ''Rinker''
   \<and> crop_choice (get_vendor_info ''Haskins Inc_0117.pdf'') = Some (20, 250, 590, 780)
   \<and> get_vendor_info ''Foley_0022.pdf'' = ''Foley''
   \<and> crop_choice (get_vendor_info ''Foley_0022.pdf'') = Some (20, 250, 590, 780)
   \<and> get_vendor_info ''Acme Supply_2024.03.pdf'' = ''Acme Supply''
   \<and> crop_choice (get_vendor_info ''Acme Supply_2024.03.pdf'') = None"
proof -
  have h1: "py_in ''Haskins Inc'' ''Haskins Inc_0117.pdf''"
    by simp
  have h2: "\<not> py_in ''Haskins Inc'' ''Foley_0022.pdf'' \<and> \<not> py_in ''Rinker'' ''Foley_0022.pdf''
            \<and> py_in ''Foley'' ''Foley_0022.pdf''"
    by simp
  have h3: "\<not> py_in ''Haskins Inc'' ''Acme Supply_2024.03.pdf''
            \<and> \<not> py_in ''Rinker'' ''Acme Supply_2024.03.pdf''
            \<and> \<not> py_in ''Foley'' ''Acme Supply_2024.03.pdf''"
    by simp
  have h4: "takeWhile (\<lambda>c. c \<noteq> CHR ''_'' \<and> c \<noteq> CHR ''.'') (basename ''Acme Supply_2024.03.pdf'')
            = ''Acme Supply''"
    by (simp add: basename_def)
  show ?thesis
    using vendor_and_crop [of "''Haskins Inc_0117.pdf''"] h1
      vendor_and_crop [of "''Foley_0022.pdf''"] h2
      vendor_and_crop [of "''Acme Supply_2024.03.pdf''"] h3 h4
    by simp
qed

section \<open>The OCR scripts: searchable files, read errors and the file-name marker\<close>

lemma perform_ocr_runs: "Run_ocr \<in> set (snd (perform_ocr env path))"
  by (simp add: perform_ocr_def Let_def split: sum.split ocr_failure.split)

text \<open>
  Claim C8. A file that exists, whose first page reads with more than 100 characters of
  stripped text and whose name does not contain the marker \<open>_OCR_Layer.pdf\<close>, is
  returned as it came by both scripts; the only thing done is the line that says so: no
  OCR is run and no file is written.
\<close>

theorem searchable_returned_unchanged:
  assumes "file_exists env" and "first_page_text env = Inr t"
    and "length (py_strip t) > 100" and "\<not> py_in OCR_MARKER (basename path)"
  shows "convert_to_searchable_pdf_batch env path = (Some path, [Print Searchable])
       \<and> convert_to_searchable_pdf_single env path = (Some path, [Print Searchable])"
  using assms
  by (simp add: convert_to_searchable_pdf_batch_def convert_to_searchable_pdf_single_def)

theorem searchable_returned_unchanged_witness:
  "convert_to_searchable_pdf_batch
     \<lparr>file_exists = True,
      first_page_text = Inr ''INVOICE 2024-0117 Rinker Materials, 12 Quarry Road. Bill to: Haskins Inc. Terms: net 30 days. Thank you.'',
      ocr_engine = Inl Tesseract_not_found\<rparr> ''invoices/scan_0117.pdf''
     = (Some ''invoices/scan_0117.pdf'', [Print Searchable])
   \<and> convert_to_searchable_pdf_single
     \<lparr>file_exists = True,
      first_page_text = Inr ''INVOICE 2024-0117 Rinker Materials, 12 Quarry Road. Bill to: Haskins Inc. Terms: net 30 days. Thank you.'',
      ocr_engine = Inl Tesseract_not_found\<rparr> ''invoices/scan_0117.pdf''
     = (Some ''invoices/scan_0117.pdf'', [Print Searchable])"
  using searchable_returned_unchanged
    [of "\<lparr>file_exists = True,
      first_page_text = Inr ''INVOICE 2024-0117 Rinker Materials, 12 Quarry Road. Bill to: Haskins Inc. Terms: net 30 days. Thank you.'',
      ocr_engine = Inl Tesseract_not_found\<rparr>"
      "''INVOICE 2024-0117 Rinker Materials, 12 Quarry Road. Bill to: Haskins Inc. Terms: net 30 days. Thank you.''"
      "''invoices/scan_0117.pdf''"]
  by (simp add: py_strip_def is_space_def OCR_MARKER_def basename_def)

text \<open>
  Claim C5, as stated, fails in \<open>batch_ocr.py\<close> for a file whose name contains the
  marker: the read error is reported, then the marker check skips the file, and the OCR
  block is never entered although the engine would have succeeded.
\<close>

theorem read_error_marker_counterexample:
  "convert_to_searchable_pdf_batch
     \<lparr>file_exists = True, first_page_text = Inl Read_error, ocr_engine = Inr ''%PDF-1.7''\<rparr>
     ''scan_0117_OCR_Layer.pdf''
   = (None, [Print Error_reading, Print Already_processed])"
  by (simp add: convert_to_searchable_pdf_batch_def OCR_MARKER_def basename_def)

text \<open>
  Claim C5, amended. In \<open>batch_ocr.py\<close>, for an existing file whose first-page read
  raises: when the file name does not contain the marker, the error is reported and the
  run goes on into the OCR block, its result being the OCR block's; when the file name
  contains the marker, the file is skipped as already processed.
\<close>

theorem read_error_handling:
  assumes "file_exists env" and "first_page_text env = Inl e"
  shows "(\<not> py_in OCR_MARKER (basename path) \<longrightarrow>
            convert_to_searchable_pdf_batch env path
              = (fst (perform_ocr env path), Print Error_reading # snd (perform_ocr env path))
            \<and> Run_ocr \<in> set (snd (convert_to_searchable_pdf_batch env path)))
       \<and> (py_in OCR_MARKER (basename path) \<longrightarrow>
            convert_to_searchable_pdf_batch env path
              = (None, [Print Error_reading, Print Already_processed]))"
  using assms perform_ocr_runs [of env path]
  by (auto simp add: convert_to_searchable_pdf_batch_def Let_def split: prod.split)

theorem read_error_handling_witness:
  "convert_to_searchable_pdf_batch
     \<lparr>file_exists = True, first_page_text = Inl Read_error, ocr_engine = Inr ''%PDF-1.7''\<rparr>
     ''scan_0117.pdf''
   = (Some ''scan_0117_OCR_Layer.pdf'',
      [Print Error_reading, Print Performing_ocr, Run_ocr,
       Write_file ''scan_0117_OCR_Layer.pdf'' ''%PDF-1.7'',
       Print (Ocr_success ''scan_0117_OCR_Layer.pdf'')])
   \<and> convert_to_searchable_pdf_batch
     \<lparr>file_exists = True, first_page_text = Inl Read_error, ocr_engine = Inl Tesseract_not_found\<rparr>
     ''out/scan_0118_OCR_Layer.pdf''
   = (None, [Print Error_reading, Print Already_processed])"
  using read_error_handling
      [of "\<lparr>file_exists = True, first_page_text = Inl Read_error, ocr_engine = Inr ''%PDF-1.7''\<rparr>"
          Read_error "''scan_0117.pdf''"]
    read_error_handling
      [of "\<lparr>file_exists = True, first_page_text = Inl Read_error, ocr_engine = Inl Tesseract_not_found\<rparr>"
          Read_error "''out/scan_0118_OCR_Layer.pdf''"]
  by (simp add: OCR_MARKER_def basename_def perform_ocr_def py_replace_del.simps Let_def)

text \<open>
  In \<open>ocr.py\<close> the handler of the same read error returns at once: the run ends with
  \<open>None\<close> and the OCR block is not entered.
\<close>

lemma read_error_single_returns:
  assumes "file_exists env" and "first_page_text env = Inl e"
  shows "convert_to_searchable_pdf_single env path = (None, [Print Error_reading])"
  using assms by (simp add: convert_to_searchable_pdf_single_def)

text \<open>
  With \<open>batch_ocr.py\<close>, a file whose name contains the marker is never put through OCR
  and no file is written for it, whatever its first page holds; when the file exists the
  run returns \<open>None\<close> and its last line is the one that says the file was already
  processed.
\<close>

lemma batch_marker_file_skipped:
  assumes "py_in OCR_MARKER (basename path)"
  shows "(file_exists env \<longrightarrow>
            fst (convert_to_searchable_pdf_batch env path) = None
            \<and> last (snd (convert_to_searchable_pdf_batch env path)) = Print Already_processed)
       \<and> Run_ocr \<notin> set (snd (convert_to_searchable_pdf_batch env path))
       \<and> (\<forall>f d. Write_file f d \<notin> set (snd (convert_to_searchable_pdf_batch env path)))"
  using assms
  by (auto simp add: convert_to_searchable_pdf_batch_def Let_def split: sum.split)

text \<open>
  Claim C6, evaluated where the code departs from it. \<open>ocr.py\<close> never looks at the
  marker: run on a file named with the marker whose first page has little text, it
  enters the OCR block again and writes a second output file, where \<open>batch_ocr.py\<close>
  skips the same file.
\<close>

theorem marker_file_ocr_again:
  "convert_to_searchable_pdf_single
     \<lparr>file_exists = True, first_page_text = Inr ''Page 1'', ocr_engine = Inr ''%PDF-1.7''\<rparr>
     ''scan_0117_OCR_Layer.pdf''
   = (Some ''scan_0117_OCR_Layer_OCR_Layer.pdf'',
      [Print Performing_ocr, Run_ocr,
       Write_file ''scan_0117_OCR_Layer_OCR_Layer.pdf'' ''%PDF-1.7'',
       Print (Ocr_success ''scan_0117_OCR_Layer_OCR_Layer.pdf'')])
   \<and> convert_to_searchable_pdf_batch
     \<lparr>file_exists = True, first_page_text = Inr ''Page 1'', ocr_engine = Inr ''%PDF-1.7''\<rparr>
     ''scan_0117_OCR_Layer.pdf''
   = (None, [Print Already_processed])"
  by (simp add: convert_to_searchable_pdf_single_def convert_to_searchable_pdf_batch_def
        perform_ocr_def py_strip_def is_space_def basename_def py_replace_del.simps Let_def
        OCR_MARKER_def)

section \<open>Strategy B: what a match can hold\<close>

lemma rep_greedy_sound:
  assumes f: "\<And>st st'. st' \<in> set (f st) \<Longrightarrow> \<exists>w\<in>L. rest st = w @ rest st'"
  shows "st' \<in> set (rep_greedy f lo k st) \<Longrightarrow>
         \<exists>ws. rest st = concat ws @ rest st' \<and> set ws \<subseteq> L \<and> lo \<le> length ws \<and> length ws \<le> k"
proof (induction k arbitrary: lo st)
  case 0
  then have "lo = 0" and "st' = st" by (auto split: if_splits)
  then have "rest st = concat [] @ rest st' \<and> set [] \<subseteq> L \<and> lo \<le> length ([] :: string list)
             \<and> length ([] :: string list) \<le> 0"
    by simp
  then show ?case by blast
next
  case (Suc k)
  from Suc.prems consider
    (more) st1 where "st1 \<in> set (f st)" and "st' \<in> set (rep_greedy f (lo - 1) k st1)"
    | (stop) "lo = 0" and "st' = st"
    by (auto split: if_splits)
  then show ?case
  proof cases
    case more
    from f [OF more(1)] obtain w where w: "w \<in> L" "rest st = w @ rest st1" by blast
    from Suc.IH [OF more(2)] obtain ws where
      ws: "rest st1 = concat ws @ rest st'" "set ws \<subseteq> L" "lo - 1 \<le> length ws" "length ws \<le> k"
      by blast
    have "rest st = concat (w # ws) @ rest st' \<and> set (w # ws) \<subseteq> L \<and> lo \<le> length (w # ws)
          \<and> length (w # ws) \<le> Suc k"
      using w ws by simp
    then show ?thesis by blast
  next
    case stop
    then have "rest st = concat [] @ rest st' \<and> set [] \<subseteq> L \<and> lo \<le> length ([] :: string list)
             \<and> length ([] :: string list) \<le> Suc k"
      by simp
    then show ?thesis by blast
  qed
qed

lemma rep_lazy_sound:
  assumes f: "\<And>st st'. st' \<in> set (f st) \<Longrightarrow> \<exists>w\<in>L. rest st = w @ rest st'"
  shows "st' \<in> set (rep_lazy f lo k st) \<Longrightarrow>
         \<exists>ws. rest st = concat ws @ rest st' \<and> set ws \<subseteq> L \<and> lo \<le> length ws \<and> length ws \<le> k"
proof (induction k arbitrary: lo st)
  case 0
  then have "lo = 0" and "st' = st" by (auto split: if_splits)
  then have "rest st = concat [] @ rest st' \<and> set [] \<subseteq> L \<and> lo \<le> length ([] :: string list)
             \<and> length ([] :: string list) \<le> 0"
    by simp
  then show ?case by blast
next
  case (Suc k)
  from Suc.prems consider
    (more) st1 where "st1 \<in> set (f st)" and "st' \<in> set (rep_lazy f (lo - 1) k st1)"
    | (stop) "lo = 0" and "st' = st"
    by (auto split: if_splits)
  then show ?case
  proof cases
    case more
    from f [OF more(1)] obtain w where w: "w \<in> L" "rest st = w @ rest st1" by blast
    from Suc.IH [OF more(2)] obtain ws where
      ws: "rest st1 = concat ws @ rest st'" "set ws \<subseteq> L" "lo - 1 \<le> length ws" "length ws \<le> k"
      by blast
    have "rest st = concat (w # ws) @ rest st' \<and> set (w # ws) \<subseteq> L \<and> lo \<le> length (w # ws)
          \<and> length (w # ws) \<le> Suc k"
      using w ws by simp
    then show ?thesis by blast
  next
    case stop
    then have "rest st = concat [] @ rest st' \<and> set [] \<subseteq> L \<and> lo \<le> length ([] :: string list)
             \<and> length ([] :: string list) \<le> Suc k"
      by simp
    then show ?thesis by blast
  qed
qed

lemma rmatch_sound:
  "st' \<in> set (rmatch r st) \<Longrightarrow> \<exists>w\<in>lang r. rest st = w @ rest st'"
proof (induction r arbitrary: st st')
  case (Atom a)
  then show ?case by (auto split: list.splits if_splits)
next
  case (Seq r1 r2)
  from Seq.prems obtain st1 where st1: "st1 \<in> set (rmatch r1 st)" "st' \<in> set (rmatch r2 st1)"
    by auto
  from Seq.IH(1) [OF st1(1)] obtain u where u: "u \<in> lang r1" "rest st = u @ rest st1" by blast
  from Seq.IH(2) [OF st1(2)] obtain v where v: "v \<in> lang r2" "rest st1 = v @ rest st'" by blast
  have "u @ v \<in> lang (Seq r1 r2)" using u v by auto
  moreover have "rest st = (u @ v) @ rest st'" using u v by simp
  ultimately show ?case by blast
next
  case (Rep lo hi greedy r)
  define k where "k = (case hi of Some h \<Rightarrow> h | None \<Rightarrow> length (rest st))"
  have body: "\<And>st st'. st' \<in> set (rmatch r st) \<Longrightarrow> \<exists>w\<in>lang r. rest st = w @ rest st'"
    using Rep.IH by blast
  have "\<exists>ws. rest st = concat ws @ rest st' \<and> set ws \<subseteq> lang r \<and> lo \<le> length ws \<and> length ws \<le> k"
  proof (cases greedy)
    case True
    with Rep.prems have "st' \<in> set (rep_greedy (rmatch r) lo k st)"
      by (simp add: k_def Let_def)
    then show ?thesis using rep_greedy_sound [of "rmatch r" "lang r"] body by blast
  next
    case False
    with Rep.prems have "st' \<in> set (rep_lazy (rmatch r) lo k st)"
      by (simp add: k_def Let_def)
    then show ?thesis using rep_lazy_sound [of "rmatch r" "lang r"] body by blast
  qed
  then obtain ws where ws: "rest st = concat ws @ rest st'" "set ws \<subseteq> lang r" "lo \<le> length ws"
    "length ws \<le> k" by blast
  have "concat ws \<in> lang (Rep lo hi greedy r)"
    using ws by (auto simp: k_def split: option.splits)
  then show ?case using ws(1) by blast
next
  case (Group n r)
  then show ?case by auto
next
  case Eol
  then show ?case by (auto split: list.splits if_splits)
qed

lemma rep_greedy_caps:
  assumes f: "\<And>st st'. st' \<in> set (f st) \<Longrightarrow> caps st' = caps st"
  shows "st' \<in> set (rep_greedy f lo k st) \<Longrightarrow> caps st' = caps st"
proof (induction k arbitrary: lo st)
  case 0
  then show ?case by (auto split: if_splits)
next
  case (Suc k)
  then show ?case using f by (fastforce split: if_splits)
qed

lemma rep_lazy_caps:
  assumes f: "\<And>st st'. st' \<in> set (f st) \<Longrightarrow> caps st' = caps st"
  shows "st' \<in> set (rep_lazy f lo k st) \<Longrightarrow> caps st' = caps st"
proof (induction k arbitrary: lo st)
  case 0
  then show ?case by (auto split: if_splits)
next
  case (Suc k)
  then show ?case using f by (fastforce split: if_splits)
qed

lemma rmatch_group_free:
  "group_free r \<Longrightarrow> st' \<in> set (rmatch r st) \<Longrightarrow> caps st' = caps st"
proof (induction r arbitrary: st st')
  case (Atom a)
  then show ?case by (auto split: list.splits if_splits)
next
  case (Seq r1 r2)
  then show ?case by fastforce
next
  case (Rep lo hi greedy r)
  have body: "\<And>st st'. st' \<in> set (rmatch r st) \<Longrightarrow> caps st' = caps st"
    using Rep.IH Rep.prems(1) by simp
  show ?case
  proof (cases greedy)
    case True
    with Rep.prems(2) show ?thesis
      using rep_greedy_caps [of "rmatch r"] body by (simp add: Let_def)
  next
    case False
    with Rep.prems(2) show ?thesis
      using rep_lazy_caps [of "rmatch r"] body by (simp add: Let_def)
  qed
next
  case (Group n r)
  then show ?case by simp
next
  case Eol
  then show ?case by (auto split: list.splits if_splits)
qed

lemma rmatch_group:
  assumes "st' \<in> set (rmatch (Group n r) st)"
  shows "\<exists>w\<in>lang r. caps st' n = Some w"
proof -
  from assms obtain st1 where st1: "st1 \<in> set (rmatch r st)"
    and st': "st' = st1\<lparr>caps := (caps st1)(n \<mapsto> take (length (rest st) - length (rest st1)) (rest st))\<rparr>"
    by auto
  from rmatch_sound [OF st1] obtain w where w: "w \<in> lang r" "rest st = w @ rest st1" by blast
  then have "take (length (rest st) - length (rest st1)) (rest st) = w" by simp
  with st' w(1) show ?thesis by simp
qed

lemma rmatch_SeqD:
  "m \<in> set (rmatch (Seq r1 r2) st) \<Longrightarrow> \<exists>st1. st1 \<in> set (rmatch r1 st) \<and> m \<in> set (rmatch r2 st1)"
  by auto

lemma price_regex_group2:
  assumes "m \<in> set (rmatch PRICE_REGEX st)"
  shows "\<exists>w\<in>lang PRICE_BODY. caps m 2 = Some w"
proof -
  from assms obtain st1 where
    "m \<in> set (rmatch (Seq (Rep 1 None True (Atom Space))
         (Seq (Rep 0 (Some 5) True
                 (Seq (Rep 1 None True (Atom NonSpace)) (Rep 1 None True (Atom Space))))
           (Seq (Atom (Lit CHR ''$''))
             (Seq (Group 2 PRICE_BODY)
               (Seq (Rep 0 None True (Atom Space)) Eol))))) st1)"
    unfolding PRICE_REGEX_def using rmatch_SeqD by blast
  then obtain st2 where
    "m \<in> set (rmatch (Seq (Rep 0 (Some 5) True
                 (Seq (Rep 1 None True (Atom NonSpace)) (Rep 1 None True (Atom Space))))
           (Seq (Atom (Lit CHR ''$''))
             (Seq (Group 2 PRICE_BODY)
               (Seq (Rep 0 None True (Atom Space)) Eol)))) st2)"
    using rmatch_SeqD by blast
  then obtain st3 where
    "m \<in> set (rmatch (Seq (Atom (Lit CHR ''$''))
             (Seq (Group 2 PRICE_BODY)
               (Seq (Rep 0 None True (Atom Space)) Eol))) st3)"
    using rmatch_SeqD by blast
  then obtain st4 where
    "m \<in> set (rmatch (Seq (Group 2 PRICE_BODY)
               (Seq (Rep 0 None True (Atom Space)) Eol)) st4)"
    using rmatch_SeqD by blast
  then obtain st5 where
    g: "st5 \<in> set (rmatch (Group 2 PRICE_BODY) st4)"
    and t: "m \<in> set (rmatch (Seq (Rep 0 None True (Atom Space)) Eol) st5)"
    using rmatch_SeqD by blast
  have "group_free (Seq (Rep 0 None True (Atom Space)) Eol)"
    by simp
  then have "caps m = caps st5"
    using t by (rule rmatch_group_free)
  then show ?thesis
    using rmatch_group [OF g] by simp
qed

lemma digits_concat:
  assumes "set ws \<subseteq> lang (Atom Digit)"
  shows "length (concat ws) = length ws \<and> list_all is_digit (concat ws)"
  using assms by (induction ws) auto

lemma comma_groups_concat:
  assumes "set ws \<subseteq> lang (Seq (Atom (Lit CHR '','')) (Rep 3 (Some 3) True (Atom Digit)))"
  shows "\<exists>gs. concat ws = concat (map (\<lambda>g. CHR '','' # g) gs)
              \<and> (\<forall>g\<in>set gs. length g = 3 \<and> list_all is_digit g)"
  using assms
proof (induction ws)
  case Nil
  have "concat [] = concat (map (\<lambda>g. CHR '','' # g) [])
        \<and> (\<forall>g\<in>set ([] :: string list). length g = 3 \<and> list_all is_digit g)"
    by simp
  then show ?case by blast
next
  case (Cons w ws)
  from Cons.prems have "w \<in> lang (Seq (Atom (Lit CHR '','')) (Rep 3 (Some 3) True (Atom Digit)))"
    by simp
  then obtain ds where ds: "w = CHR '','' # concat ds" "length ds = 3" "set ds \<subseteq> lang (Atom Digit)"
    by auto
  from Cons obtain gs where gs: "concat ws = concat (map (\<lambda>g. CHR '','' # g) gs)"
    "\<forall>g\<in>set gs. length g = 3 \<and> list_all is_digit g"
    by auto
  have "concat (w # ws) = concat (map (\<lambda>g. CHR '','' # g) (concat ds # gs))
        \<and> (\<forall>g\<in>set (concat ds # gs). length g = 3 \<and> list_all is_digit g)"
    using ds gs digits_concat [OF ds(3)] by simp
  then show ?case by blast
qed

lemma lang_price_body_currency:
  assumes "w \<in> lang PRICE_BODY"
  shows "is_currency (CHR ''$'' # w)"
proof -
  from assms obtain ds ws cs where
    w: "w = concat ds @ concat ws @ CHR ''.'' # concat cs"
    and ds: "1 \<le> length ds" "length ds \<le> 3" "set ds \<subseteq> lang (Atom Digit)"
    and ws: "set ws \<subseteq> lang (Seq (Atom (Lit CHR '','')) (Rep 3 (Some 3) True (Atom Digit)))"
    and cs: "length cs = 2" "set cs \<subseteq> lang (Atom Digit)"
    unfolding PRICE_BODY_def
    by (auto simp del: lang.simps(1) simp add: lang.simps(1) [of "Lit c" for c])
  from comma_groups_concat [OF ws] obtain gs where
    gs: "concat ws = concat (map (\<lambda>g. CHR '','' # g) gs)"
    "\<forall>g\<in>set gs. length g = 3 \<and> list_all is_digit g"
    by blast
  have "CHR ''$'' # w = ''$'' @ concat ds @ concat (map (\<lambda>g. CHR '','' # g) gs) @ ''.'' @ concat cs"
    using w gs(1) by simp
  then show ?thesis
    unfolding is_currency_def
    using digits_concat [OF ds(3)] digits_concat [OF cs(2)] ds(1,2) cs(1) gs(2) by metis
qed

lemma findall_sound:
  "(d, p) \<in> set (findall r s) \<Longrightarrow>
     \<exists>s0 m. m \<in> set (rmatch r (start_state s0)) \<and> d = group_text m 1 \<and> p = group_text m 2"
proof (induction r s rule: findall.induct)
  case (1 r s)
  show ?case
  proof (cases "rmatch r (start_state s)")
    case Nil
    show ?thesis
    proof (cases s)
      case Nil': Nil
      with Nil "1.prems" show ?thesis by (simp add: findall.simps [of r "[]"])
    next
      case (Cons c cs)
      with Nil "1.prems" have "(d, p) \<in> set (findall r cs)"
        by (simp add: findall.simps [of r "c # cs"])
      with "1.IH"(1) [OF Nil Cons] show ?thesis by blast
    qed
  next
    case (Cons m ms)
    have m: "m \<in> set (rmatch r (start_state s))" using Cons by simp
    from "1.prems" Cons have
      "(d, p) = (group_text m 1, group_text m 2)
       \<or> (d, p) \<in> set (if length (rest m) < length s then findall r (rest m)
                        else (case s of [] \<Rightarrow> [] | c # cs \<Rightarrow> findall r cs))"
      by (simp add: findall.simps [of r s])
    then consider (here) "(d, p) = (group_text m 1, group_text m 2)"
      | (later) "length (rest m) < length s" "(d, p) \<in> set (findall r (rest m))"
      | (step) cs c where "\<not> length (rest m) < length s" "s = c # cs" "(d, p) \<in> set (findall r cs)"
      by (auto split: if_splits list.splits)
    then show ?thesis
    proof cases
      case here
      with m show ?thesis by blast
    next
      case later
      with "1.IH"(2) [OF Cons later(1)] show ?thesis by blast
    next
      case step
      with "1.IH"(3) [OF Cons step(1) step(2)] show ?thesis by blast
    qed
  qed
qed

lemma match_to_items_shape:
  assumes "item \<in> set (match_to_items (d, p))"
  shows "5 < length (Description item) \<and> Total_Price item = CHR ''$'' # p"
  using assms by (auto simp: match_to_items_def Let_def split: if_splits)

lemma extract_with_regex_shape:
  assumes "extract_with_regex page_text = Some data" and "item \<in> set data"
  shows "5 < length (Description item) \<and> is_currency (Total_Price item)"
proof -
  from assms obtain d p where
    dp: "(d, p) \<in> set (findall PRICE_REGEX (cleaned_text page_text))"
    and item: "item \<in> set (match_to_items (d, p))"
    by (auto simp: extract_with_regex_def Let_def split: if_splits)
  from findall_sound [OF dp] obtain s0 m where
    m: "m \<in> set (rmatch PRICE_REGEX (start_state s0))" and p: "p = group_text m 2"
    by blast
  from price_regex_group2 [OF m] obtain w where w: "w \<in> lang PRICE_BODY" "caps m 2 = Some w"
    by blast
  then have "p = w" using p by (simp add: group_text_def)
  then have "is_currency (CHR ''$'' # p)"
    using lang_price_body_currency w(1) by simp
  then show ?thesis
    using match_to_items_shape [OF item] by simp
qed

lemma strategy_A_price:
  assumes "strategy_A table_data = Some rows" and "item \<in> set rows"
  shows "currency_like (Total_Price item)"
proof -
  from assms(1) obtain t where
    rows: "rows = map (\<lambda>row. \<lparr>Description = normalize_description
                                 (astype_str (col_cell row (nat (desc_col_index (price_col_index t))))),
                             Total_Price = astype_str (col_cell row (nat (price_col_index t)))\<rparr>)
                    (df_filtered (data_rows t) (price_col_index t))"
    by (rule strategy_A_rows)
  with assms(2) show ?thesis
    by (auto simp: df_filtered_def)
qed

text \<open>
  Claim C1, as stated, fails for Strategy A, which checks neither the length of the
  description nor the format of the price: a table row with the cells \<open>ab\<close> and \<open>12\<close>
  is written to the report as it is.
\<close>

theorem short_description_counterexample:
  "files (extract_line_items_from_pdf ''Acme_0042.pdf''
      (FirstPage \<lparr>extract_table = (\<lambda>crop. Some [[Some ''Item'', Some ''Total''],
                                                  [Some ''ab'', Some ''12'']]),
                  extract_text = []\<rparr>) Map.empty) ''Acme_0042_extracted.md''
     = Some [\<lparr>Description = ''ab'', Total_Price = ''12''\<rparr>]
   \<and> \<not> 5 < length ''ab'' \<and> \<not> is_currency ''12''"
proof -
  have A: "strategy_A (Some [[Some ''Item'', Some ''Total''], [Some ''ab'', Some ''12'']])
           = Some [\<lparr>Description = ''ab'', Total_Price = ''12''\<rparr>]"
    by (simp add: strategy_A_def price_col_index_def data_rows_def shape1_def col_passes_def
          currency_count_def astype_str_def col_cell_def currency_like_def is_digit_def
          desc_col_index_def df_filtered_def normalize_description_def py_strip_def is_space_def)
  have N: "output_file_name ''Acme_0042.pdf'' = ''Acme_0042_extracted.md''"
    by (simp add: output_file_name_def basename_def py_replace_del.simps)
  have F: "files (extract_line_items_from_pdf ''Acme_0042.pdf''
      (FirstPage \<lparr>extract_table = (\<lambda>crop. Some [[Some ''Item'', Some ''Total''],
                                                  [Some ''ab'', Some ''12'']]),
                  extract_text = []\<rparr>) Map.empty) ''Acme_0042_extracted.md''
     = Some [\<lparr>Description = ''ab'', Total_Price = ''12''\<rparr>]"
    by (simp add: extract_line_items_from_pdf_def table_data_of_def Let_def A N)
  have C: "\<not> is_currency ''12''"
    by (simp add: is_currency_def)
  show ?thesis using F C by simp
qed

text \<open>
  Claim C1, amended. Every record emitted by Strategy B has a description of more than
  5 characters and a price in the format \<open>$d{1,3}(,ddd)*.dd\<close>. A record emitted by
  Strategy A has a price cell that contains a digit or a dollar sign; nothing is
  checked about the length of its description or the exact format of its price. So a
  row of a written report has the first shape when the fallback ran and the second
  otherwise.
\<close>

theorem emitted_record_shape:
  "(extract_with_regex page_text = Some data \<and> item \<in> set data \<longrightarrow>
      5 < length (Description item) \<and> is_currency (Total_Price item))
   \<and> (strategy_A table_data = Some rows \<and> item \<in> set rows \<longrightarrow>
      currency_like (Total_Price item))
   \<and> (returned (extract_line_items_from_pdf pdf_path (FirstPage page) fs)
      \<and> files (extract_line_items_from_pdf pdf_path (FirstPage page) fs) (output_file_name pdf_path)
          = Some out
      \<and> item \<in> set out \<longrightarrow>
      (if Strategy_B_fallback \<in> set (printed (extract_line_items_from_pdf pdf_path (FirstPage page) fs))
       then 5 < length (Description item) \<and> is_currency (Total_Price item)
       else currency_like (Total_Price item)))"
proof -
  have B: "extract_with_regex page_text = Some data \<and> item \<in> set data \<longrightarrow>
      5 < length (Description item) \<and> is_currency (Total_Price item)"
    using extract_with_regex_shape by blast
  have A: "strategy_A table_data = Some rows \<and> item \<in> set rows \<longrightarrow>
      currency_like (Total_Price item)"
    using strategy_A_price by blast
  have R: "if Strategy_B_fallback \<in> set (printed (extract_line_items_from_pdf pdf_path (FirstPage page) fs))
       then 5 < length (Description item) \<and> is_currency (Total_Price item)
       else currency_like (Total_Price item)"
    if a: "returned (extract_line_items_from_pdf pdf_path (FirstPage page) fs)"
      "files (extract_line_items_from_pdf pdf_path (FirstPage page) fs) (output_file_name pdf_path)
          = Some out"
      "item \<in> set out"
  proof (cases "strategy_A (table_data_of pdf_path page)")
    case None
    then have "extract_with_regex (extract_text page) = Some out"
      using a extract_after_A_none(2) [OF None, of fs] by simp
    then show ?thesis
      using a extract_after_A_none(1) [OF None, of fs] extract_with_regex_shape by simp
  next
    case (Some rows')
    then have "rows' = out"
      using a extract_after_A_rows(3) [OF Some, of fs] by simp
    then show ?thesis
      using a extract_after_A_rows(1) [OF Some, of fs] strategy_A_price [OF Some] by simp
  qed
  show ?thesis
    using A B R by blast
qed

theorem emitted_record_shape_witness:
  "extract_with_regex ''Sales Tax 12.5 $1,425.00''
     = Some [\<lparr>Description = ''Sales Tax'', Total_Price = ''$1,425.00''\<rparr>]
   \<and> 5 < length ''Sales Tax'' \<and> is_currency ''$1,425.00''
   \<and> strategy_A (Some [[Some ''Item'', Some ''Total''], [Some ''ab'', Some ''12'']])
       = Some [\<lparr>Description = ''ab'', Total_Price = ''12''\<rparr>]
   \<and> currency_like ''12''
   \<and> extract_line_items_from_pdf ''in/Acme_0042.pdf''
        (FirstPage \<lparr>extract_table = (\<lambda>crop. None), extract_text = ''Sales Tax 12.5 $1,425.00''\<rparr>)
        Map.empty
       = \<lparr>returned = True,
          printed = [Vendor ''Acme'', Strategy_A_attempt, Strategy_B_fallback, Regex_success 1,
                     Final_success 1 ''Acme_0042_extracted.md''],
          files = [''Acme_0042_extracted.md'' \<mapsto>
                     [\<lparr>Description = ''Sales Tax'', Total_Price = ''$1,425.00''\<rparr>]]\<rparr>"
proof -
  have B: "extract_with_regex ''Sales Tax 12.5 $1,425.00''
     = Some [\<lparr>Description = ''Sales Tax'', Total_Price = ''$1,425.00''\<rparr>]"
    by code_simp
  have A: "strategy_A (Some [[Some ''Item'', Some ''Total''], [Some ''ab'', Some ''12'']])
           = Some [\<lparr>Description = ''ab'', Total_Price = ''12''\<rparr>]"
    by (simp add: strategy_A_def price_col_index_def data_rows_def shape1_def col_passes_def
          currency_count_def astype_str_def col_cell_def currency_like_def is_digit_def
          desc_col_index_def df_filtered_def normalize_description_def py_strip_def is_space_def)
  have N: "output_file_name ''in/Acme_0042.pdf'' = ''Acme_0042_extracted.md''"
    by (simp add: output_file_name_def basename_def py_replace_del.simps)
  have V: "get_vendor_info (basename ''in/Acme_0042.pdf'') = ''Acme''"
    by (simp add: get_vendor_info_def basename_def)
  have R: "extract_line_items_from_pdf ''in/Acme_0042.pdf''
        (FirstPage \<lparr>extract_table = (\<lambda>crop. None), extract_text = ''Sales Tax 12.5 $1,425.00''\<rparr>)
        Map.empty
       = \<lparr>returned = True,
          printed = [Vendor ''Acme'', Strategy_A_attempt, Strategy_B_fallback, Regex_success 1,
                     Final_success 1 ''Acme_0042_extracted.md''],
          files = [''Acme_0042_extracted.md'' \<mapsto>
                     [\<lparr>Description = ''Sales Tax'', Total_Price = ''$1,425.00''\<rparr>]]\<rparr>"
    by (simp add: extract_line_items_from_pdf_def table_data_of_def strategy_A_def Let_def B N V)
  show ?thesis
    using A B R
      emitted_record_shape
        [of "''Sales Tax 12.5 $1,425.00''"
            "[\<lparr>Description = ''Sales Tax'', Total_Price = ''$1,425.00''\<rparr>]"
            "\<lparr>Description = ''Sales Tax'', Total_Price = ''$1,425.00''\<rparr>"]
      emitted_record_shape
        [of _ _ "\<lparr>Description = ''ab'', Total_Price = ''12''\<rparr>"
            "Some [[Some ''Item'', Some ''Total''], [Some ''ab'', Some ''12'']]"
            "[\<lparr>Description = ''ab'', Total_Price = ''12''\<rparr>]"]
    by simp
qed

text \<open>
  Claim C4, evaluated where the code departs from it. Each of the two lines below, on
  its own, gives one record. Together they give a single record, which pairs the
  description of the first line with the price of the second: the junk tokens of the
  pattern are separated by \<open>\s+\<close>, which also matches the newline, so the first price
  and the whole second description are read as junk.
\<close>

theorem two_priced_lines_one_record:
  "extract_with_regex (''Labor charge $100.00'' @ [NL] @ ''Material cost $50.00'')
     = Some [\<lparr>Description = ''Labor charge'', Total_Price = ''$50.00''\<rparr>]
   \<and> extract_with_regex ''Labor charge $100.00''
     = Some [\<lparr>Description = ''Labor charge'', Total_Price = ''$100.00''\<rparr>]
   \<and> extract_with_regex ''Material cost $50.00''
     = Some [\<lparr>Description = ''Material cost'', Total_Price = ''$50.00''\<rparr>]"
proof -
  have both: "extract_with_regex (''Labor charge $100.00'' @ [NL] @ ''Material cost $50.00'')
     = Some [\<lparr>Description = ''Labor charge'', Total_Price = ''$50.00''\<rparr>]"
    by code_simp
  have first: "extract_with_regex ''Labor charge $100.00''
     = Some [\<lparr>Description = ''Labor charge'', Total_Price = ''$100.00''\<rparr>]"
    by code_simp
  have second: "extract_with_regex ''Material cost $50.00''
     = Some [\<lparr>Description = ''Material cost'', Total_Price = ''$50.00''\<rparr>]"
    by code_simp
  show ?thesis
    using both first second by (intro conjI)
qed

end
